theory Spec2Isabelle
  imports Main
begin

section \<open>The prompt management page (Tools/WebServer/pages/Prompts.tsx)\<close>

text \<open>
  The page is a React function component. Its state variables are the fields of the
  record \<open>page\<close>; each handler is a function from page to page. An \<open>async\<close>
  handler runs up to its first \<open>await\<close>, where it leaves the DataService call it
  issued, together with the rest of its body (a \<open>continuation\<close>), in the list
  \<open>pending\<close>; the rest runs when the call is resolved (\<open>resume\<close>). What a handler
  reads after an \<open>await\<close> is what its closure captured when it was called, so a
  continuation carries those values. The operator's actions and the resolutions of
  pending calls are the events of \<open>step\<close>.

  A string is a list of characters, each standing for one code unit below 256.
\<close>

subsection \<open>Strings\<close>

text \<open>\<open>String.prototype.endsWith\<close>.\<close>

definition endsWith :: "string \<Rightarrow> string \<Rightarrow> bool" where
  "endsWith s suf \<longleftrightarrow>
     length suf \<le> length s \<and> drop (length s - length suf) s = suf"

text \<open>
  \<open>String.prototype.replace\<close> with a string pattern: the first occurrence of the
  pattern, scanning from the left, is replaced; without an occurrence the string is
  returned as it is.
\<close>

fun replace_first :: "string \<Rightarrow> string \<Rightarrow> string \<Rightarrow> string" where
  "replace_first pat rep [] = (if pat = [] then rep else [])"
| "replace_first pat rep (c # cs) =
     (if take (length pat) (c # cs) = pat then rep @ drop (length pat) (c # cs)
      else c # replace_first pat rep cs)"

text \<open>
  \<open>String.prototype.trim\<close>: white space and line terminators are removed at both
  ends. Below 256 these are TAB, LF, VT, FF, CR, SP and NBSP.
\<close>

definition is_ws :: "char \<Rightarrow> bool" where
  "is_ws c \<longleftrightarrow> c \<in> set [CHR 0x09, CHR 0x0A, CHR 0x0B, CHR 0x0C, CHR 0x0D, CHR 0x20, CHR 0xA0]"

definition trim :: "string \<Rightarrow> string" where
  "trim s = rev (dropWhile is_ws (rev (dropWhile is_ws s)))"

subsection \<open>Data\<close>

text \<open>
  The configuration object of the global context: an object with string keys. The two
  prompt selections are objects \<open>{last_selected_id, prompt_content}\<close>; every other
  value is kept as it is.
\<close>

datatype cfgval =
    PromptSelection (last_selected_id: string) (prompt_content: string)
  | OtherValue string

type_synonym config = "string \<Rightarrow> cfgval option"

text \<open>The calls of DataService the page makes.\<close>

datatype request =
    ListPromptCategories
  | ListPrompts string
  | GetPromptContent string string
  | SavePromptContent string string string
  | SaveConfig config

text \<open>
  The rest of a handler after its \<open>await\<close>, with the values its closure holds:
  \<open>loadCategories\<close> its \<open>activeCategory\<close>; \<open>loadPrompts\<close> the handler awaiting
  it, if any (\<open>handleCreate\<close>, with its \<open>activeCategory\<close> and \<open>filename\<close>);
  \<open>loadPromptContent\<close> its \<open>filename\<close>; \<open>handleApply\<close> its \<open>newConfig\<close>;
  \<open>handleCreate\<close> its \<open>activeCategory\<close> and \<open>filename\<close>.
\<close>

datatype continuation =
    Await_loadCategories string
  | Await_loadPrompts "(string \<times> string) option"
  | Await_loadPromptContent string
  | Await_handleSave
  | Await_handleApply config
  | Await_handleCreate string string

text \<open>How a pending call ends: the promise is rejected, or fulfilled with a value.\<close>

datatype response =
    Rejected
  | Fulfilled_list "string list"
  | Fulfilled_text string
  | Fulfilled_unit

text \<open>The \<open>alert\<close> boxes shown to the operator.\<close>

datatype notice =
    Msg_saved
  | Save_failed
  | Msg_prompt_updated
  | Apply_failed
  | Create_failed

record page =
  categories :: "string list"
  activeCategory :: string
  prompts :: "string list"
  selectedPrompt :: "string option"
  content :: string
  loading :: bool
  saving :: bool
  filter_text :: string
  isCreating :: bool
  newName :: string
  config :: "config option"
  pending :: "(request \<times> continuation) list"
  alerts :: "notice list"
  console :: "string list"

text \<open>\<open>selectedPrompt\<close> as a condition: \<open>null\<close> and the empty string are falsy.\<close>

definition truthy :: "string option \<Rightarrow> bool" where
  "truthy v = (case v of None \<Rightarrow> False | Some f \<Rightarrow> f \<noteq> [])"

definition isSystem :: "page \<Rightarrow> bool" where
  "isSystem s \<longleftrightarrow> activeCategory s = ''System''"

definition isSelectionTarget :: "page \<Rightarrow> bool" where
  "isSelectionTarget s \<longleftrightarrow> activeCategory s \<in> set [''Translate'', ''Polishing'']"

subsection \<open>Handlers, up to their first await\<close>

definition issue :: "request \<Rightarrow> continuation \<Rightarrow> page \<Rightarrow> page" where
  "issue rq k s = s\<lparr>pending := pending s @ [(rq, k)]\<rparr>"

definition loadCategories :: "string \<Rightarrow> page \<Rightarrow> page" where
  "loadCategories ac s = issue ListPromptCategories (Await_loadCategories ac) s"

definition loadPrompts :: "(string \<times> string) option \<Rightarrow> string \<Rightarrow> page \<Rightarrow> page" where
  "loadPrompts caller cat s =
     issue (ListPrompts cat) (Await_loadPrompts caller) (s\<lparr>loading := True\<rparr>)"

text \<open>
  \<open>loadPromptContent\<close> reads \<open>activeCategory\<close> from its closure: the current one
  when the operator clicks a file, the one \<open>handleCreate\<close> was called with when
  \<open>handleCreate\<close> calls it.
\<close>

definition loadPromptContent :: "string \<Rightarrow> string \<Rightarrow> page \<Rightarrow> page" where
  "loadPromptContent ac filename s =
     issue (GetPromptContent ac filename) (Await_loadPromptContent filename)
       (s\<lparr>loading := True\<rparr>)"

definition handleSave :: "page \<Rightarrow> page" where
  "handleSave s =
     (if \<not> truthy (selectedPrompt s) then s
      else issue (SavePromptContent (activeCategory s) (the (selectedPrompt s)) (content s))
             Await_handleSave (s\<lparr>saving := True\<rparr>))"

text \<open>The object \<open>newConfig\<close> that \<open>handleApply\<close> builds.\<close>

definition apply_key :: "string \<Rightarrow> string" where
  "apply_key cat =
     (if cat = ''Polishing'' then ''polishing_prompt_selection''
      else ''translation_prompt_selection'')"

definition newConfig :: "string \<Rightarrow> string \<Rightarrow> string \<Rightarrow> config \<Rightarrow> config" where
  "newConfig cat filename text cfg =
     cfg(apply_key cat \<mapsto> PromptSelection (replace_first ''.txt'' [] filename) text)"

definition handleApply :: "page \<Rightarrow> page" where
  "handleApply s =
     (if \<not> truthy (selectedPrompt s) \<or> config s = None then s
      else
        let nc = newConfig (activeCategory s) (the (selectedPrompt s)) (content s)
                   (the (config s))
        in issue (SaveConfig nc) (Await_handleApply nc) s)"

definition handleCreate :: "page \<Rightarrow> page" where
  "handleCreate s =
     (if trim (newName s) = [] then s
      else
        let filename = (if endsWith (newName s) ''.txt'' then newName s
                        else newName s @ ''.txt'')
        in issue (SavePromptContent (activeCategory s) filename [])
             (Await_handleCreate (activeCategory s) filename) s)"

text \<open>
  \<open>setActiveCategory\<close> followed by the effect that depends on \<open>activeCategory\<close>:
  the effect runs when the value has changed.
\<close>

definition effect_activeCategory :: "page \<Rightarrow> page" where
  "effect_activeCategory s =
     (if activeCategory s \<noteq> [] then
        (loadPrompts None (activeCategory s) s)\<lparr>selectedPrompt := None, content := []\<rparr>
      else s)"

definition setActiveCategory :: "string \<Rightarrow> page \<Rightarrow> page" where
  "setActiveCategory cat s =
     (if cat = activeCategory s then s
      else effect_activeCategory (s\<lparr>activeCategory := cat\<rparr>))"

subsection \<open>Handlers, after the await\<close>

fun resume :: "continuation \<Rightarrow> response \<Rightarrow> page \<Rightarrow> page option" where
  "resume (Await_loadCategories ac) (Fulfilled_list cats) s =
     Some (let s1 = s\<lparr>categories := cats\<rparr> in
           if cats \<noteq> [] \<and> ac = [] then
             setActiveCategory
               (if ''Translate'' \<in> set cats then ''Translate'' else hd cats) s1
           else s1)"
| "resume (Await_loadCategories ac) Rejected s =
     Some (s\<lparr>console := console s @ [''Failed to load categories'']\<rparr>)"
| "resume (Await_loadCategories ac) _ s = None"
| "resume (Await_loadPrompts caller) r s =
     (case (case r of
              Fulfilled_list l \<Rightarrow> Some (s\<lparr>prompts := l\<rparr>)
            | Rejected \<Rightarrow> Some (s\<lparr>console := console s @ [''Failed to load prompts'']\<rparr>)
            | _ \<Rightarrow> None) of
        None \<Rightarrow> None
      | Some s1 \<Rightarrow>
          Some (let s2 = s1\<lparr>loading := False\<rparr> in
                case caller of
                  None \<Rightarrow> s2
                | Some (ac, filename) \<Rightarrow>
                    loadPromptContent ac filename (s2\<lparr>isCreating := False, newName := []\<rparr>)))"
| "resume (Await_loadPromptContent filename) (Fulfilled_text data) s =
     Some (s\<lparr>content := data, selectedPrompt := Some filename, isCreating := False,
             loading := False\<rparr>)"
| "resume (Await_loadPromptContent filename) Rejected s =
     Some (s\<lparr>console := console s @ [''Failed to load prompt content''],
             loading := False\<rparr>)"
| "resume (Await_loadPromptContent filename) _ s = None"
| "resume Await_handleSave Rejected s =
     Some (s\<lparr>alerts := alerts s @ [Save_failed], saving := False\<rparr>)"
| "resume Await_handleSave _ s =
     Some (s\<lparr>alerts := alerts s @ [Msg_saved], saving := False\<rparr>)"
| "resume (Await_handleApply nc) Rejected s =
     Some (s\<lparr>alerts := alerts s @ [Apply_failed]\<rparr>)"
| "resume (Await_handleApply nc) _ s =
     Some (s\<lparr>config := Some nc, alerts := alerts s @ [Msg_prompt_updated]\<rparr>)"
| "resume (Await_handleCreate ac filename) Rejected s =
     Some (s\<lparr>alerts := alerts s @ [Create_failed]\<rparr>)"
| "resume (Await_handleCreate ac filename) _ s =
     Some (loadPrompts (Some (ac, filename)) ac s)"

subsection \<open>The page and its events\<close>

text \<open>
  The first render: every state variable at its initial value, \<open>config\<close> as the
  global context gives it, and the mount effect's call of \<open>loadCategories\<close>.
\<close>

definition initial :: "config option \<Rightarrow> page" where
  "initial cfg =
     \<lparr>categories = [], activeCategory = [], prompts = [], selectedPrompt = None,
      content = [], loading = False, saving = False, filter_text = [],
      isCreating = False, newName = [], config = cfg, pending = [], alerts = [],
      console = []\<rparr>"

definition mount :: "config option \<Rightarrow> page" where
  "mount cfg = effect_activeCategory (loadCategories (activeCategory (initial cfg)) (initial cfg))"

text \<open>
  An event is enabled when the element that triggers it is rendered and not disabled:
  the header buttons under \<open>selectedPrompt && !isSystem\<close> (Apply also under
  \<open>isSelectionTarget\<close>, Save with \<open>disabled={saving}\<close>), the text area under
  \<open>selectedPrompt\<close> and not \<open>readOnly\<close>, the New Prompt button under
  \<open>!isSystem\<close>, the name box under \<open>isCreating\<close>. The file list shows the files of
  \<open>prompts\<close> that pass the filter; a click on any file of \<open>prompts\<close> is admitted
  here, which includes every click the page admits.
\<close>

datatype event =
    ClickCategory string
  | ClickPrompt string
  | EditContent string
  | ChangeFilter string
  | ClickSave
  | ClickApply
  | ClickNewPrompt
  | ChangeNewName string
  | ConfirmCreate
  | CancelCreate
  | Resolve nat response

fun step :: "page \<Rightarrow> event \<Rightarrow> page option" where
  "step s (ClickCategory cat) =
     (if cat \<in> set (categories s) then Some (setActiveCategory cat s) else None)"
| "step s (ClickPrompt p) =
     (if p \<in> set (prompts s) then Some (loadPromptContent (activeCategory s) p s) else None)"
| "step s (EditContent v) =
     (if truthy (selectedPrompt s) \<and> \<not> isSystem s then Some (s\<lparr>content := v\<rparr>) else None)"
| "step s (ChangeFilter v) = Some (s\<lparr>filter_text := v\<rparr>)"
| "step s ClickSave =
     (if truthy (selectedPrompt s) \<and> \<not> isSystem s \<and> \<not> saving s then Some (handleSave s)
      else None)"
| "step s ClickApply =
     (if truthy (selectedPrompt s) \<and> \<not> isSystem s \<and> isSelectionTarget s
      then Some (handleApply s) else None)"
| "step s ClickNewPrompt =
     (if \<not> isSystem s then Some (s\<lparr>isCreating := True\<rparr>) else None)"
| "step s (ChangeNewName v) =
     (if isCreating s then Some (s\<lparr>newName := v\<rparr>) else None)"
| "step s ConfirmCreate = (if isCreating s then Some (handleCreate s) else None)"
| "step s CancelCreate = (if isCreating s then Some (s\<lparr>isCreating := False\<rparr>) else None)"
| "step s (Resolve i r) =
     (if i < length (pending s) then
        resume (snd (pending s ! i)) r
          (s\<lparr>pending := take i (pending s) @ drop (Suc i) (pending s)\<rparr>)
      else None)"

fun run :: "page \<Rightarrow> event list \<Rightarrow> page option" where
  "run s [] = Some s"
| "run s (e # es) = (case step s e of None \<Rightarrow> None | Some s' \<Rightarrow> run s' es)"

subsection \<open>Calls in flight\<close>

text \<open>
  The pending calls are told apart by the handler that awaits them: \<open>in_flight P\<close>
  counts those whose continuation satisfies \<open>P\<close>.
\<close>

fun is_save :: "continuation \<Rightarrow> bool" where
  "is_save Await_handleSave = True"
| "is_save _ = False"

fun is_apply :: "continuation \<Rightarrow> bool" where
  "is_apply (Await_handleApply nc) = True"
| "is_apply _ = False"

definition in_flight :: "(continuation \<Rightarrow> bool) \<Rightarrow> page \<Rightarrow> nat" where
  "in_flight P s = length (filter (\<lambda>p. P (snd p)) (pending s))"

text \<open>
  The events of an apply: a click on Apply, and the resolution of a pending
  \<open>saveConfig\<close> of \<open>handleApply\<close>. A run is quiet when none of its events is
  one.
\<close>

fun apply_event :: "page \<Rightarrow> event \<Rightarrow> bool" where
  "apply_event s ClickApply = True"
| "apply_event s (Resolve i r) = (i < length (pending s) \<and> is_apply (snd (pending s ! i)))"
| "apply_event s _ = False"

fun quiet :: "page \<Rightarrow> event list \<Rightarrow> bool" where
  "quiet s [] = True"
| "quiet s (e # es) =
     (\<not> apply_event s e \<and> (case step s e of None \<Rightarrow> True | Some s' \<Rightarrow> quiet s' es))"

text \<open>
  The Save button's guard: no save is in flight, or one is and \<open>saving\<close> is set.
\<close>

definition save_guarded :: "page \<Rightarrow> bool" where
  "save_guarded s \<longleftrightarrow>
     in_flight is_save s = 0 \<or> (in_flight is_save s = 1 \<and> saving s)"

text \<open>The category a pending \<open>handleSave\<close> writes to.\<close>

fun save_target :: "request \<times> continuation \<Rightarrow> string option" where
  "save_target (SavePromptContent c f x, Await_handleSave) = Some c"
| "save_target _ = None"

definition no_System_save :: "page \<Rightarrow> bool" where
  "no_System_save s \<longleftrightarrow> Some ''System'' \<notin> set (map save_target (pending s))"

subsection \<open>The store\<close>

text \<open>
  Modelled from the spec: the store's \<open>saveContent\<close>. The page reaches the store
  through \<open>DataService.savePromptContent\<close>, and neither DataService nor the service
  behind it is among the source files. Section 4.1 of the specification:
  \<open>saveContent(category, filename, text)\<close> creates the template if absent,
  overwrites it if present, and fails with \<open>ReadOnly\<close> if the category is the
  protected one. The error taxonomy is that of section 7.
\<close>

datatype store_error = TransportFailure | NotFound | ReadOnly | ValidationFailure

type_synonym store = "string \<times> string \<Rightarrow> string option"

definition saveContent ::
  "store \<Rightarrow> string \<Rightarrow> string \<Rightarrow> string \<Rightarrow> store \<times> store_error option" where
  "saveContent st cat filename text =
     (if cat = ''System'' then (st, Some ReadOnly)
      else (st((cat, filename) \<mapsto> text), None))"

subsection \<open>A session\<close>

text \<open>
  The page after the categories System, Translate and Polishing have loaded, Translate
  has been selected with the files a.txt and b.txt, a.txt has been opened with the text
  Hello and the operator has changed the text to Hello World.
\<close>

definition viewing :: page where
  "viewing =
     \<lparr>categories = [''System'', ''Translate'', ''Polishing''], activeCategory = ''Translate'',
      prompts = [''a.txt'', ''b.txt''], selectedPrompt = Some ''a.txt'',
      content = ''Hello World'', loading = False, saving = False, filter_text = [],
      isCreating = False, newName = [], config = Some Map.empty, pending = [], alerts = [],
      console = []\<rparr>"

section \<open>Properties\<close>

subsection \<open>Auxiliary facts\<close>

lemmas handler_defs =
  issue_def loadCategories_def loadPrompts_def loadPromptContent_def handleSave_def
  handleApply_def handleCreate_def effect_activeCategory_def setActiveCategory_def
  truthy_def isSystem_def isSelectionTarget_def Let_def

text \<open>The session's page is reached from the first render.\<close>

lemma viewing_reached:
  "run (mount (Some Map.empty))
     [Resolve 0 (Fulfilled_list [''System'', ''Translate'', ''Polishing'']),
      Resolve 0 (Fulfilled_list [''a.txt'', ''b.txt'']),
      ClickPrompt ''a.txt'',
      Resolve 0 (Fulfilled_text ''Hello''),
      EditContent ''Hello World''] = Some viewing"
  by (simp add: mount_def initial_def viewing_def handler_defs)

text \<open>Strings.\<close>

lemma trim_empty_iff: "trim n = [] \<longleftrightarrow> (\<forall>c\<in>set n. is_ws c)"
proof -
  have "(\<forall>x\<in>set (dropWhile is_ws n). is_ws x) \<longleftrightarrow> dropWhile is_ws n = []"
  proof
    assume a: "\<forall>x\<in>set (dropWhile is_ws n). is_ws x"
    show "dropWhile is_ws n = []"
    proof (rule ccontr)
      assume ne: "dropWhile is_ws n \<noteq> []"
      then have "\<not> is_ws (hd (dropWhile is_ws n))" by (rule hd_dropWhile)
      moreover from ne have "hd (dropWhile is_ws n) \<in> set (dropWhile is_ws n)" by simp
      ultimately show False using a by blast
    qed
  next
    assume e: "dropWhile is_ws n = []"
    show "\<forall>x\<in>set (dropWhile is_ws n). is_ws x" unfolding e by simp
  qed
  then show ?thesis
    by (simp add: trim_def dropWhile_eq_Nil_conv del: set_rev) (simp add: dropWhile_eq_Nil_conv)
qed

lemma endsWith_append [simp]: "endsWith (n @ suf) suf"
  by (simp add: endsWith_def)

lemma trim_txt: "trim (n @ ''.txt'') \<noteq> []"
  by (simp add: trim_empty_iff is_ws_def)

lemma replace_first_self: "replace_first pat [] pat = []"
  by (cases pat) simp_all

lemma replace_first_json: "replace_first ''.txt'' [] ''a.json'' = ''a.json''"
  by simp

text \<open>
  Removing the first occurrence of a pattern strips it from the end of a string when it
  occurs nowhere earlier in the string.
\<close>

lemma replace_first_strips_suffix:
  assumes "\<forall>i<length base. take (length pat) (drop i (base @ pat)) \<noteq> pat"
  shows "replace_first pat [] (base @ pat) = base"
  using assms
proof (induction base)
  case Nil
  then show ?case by (simp add: replace_first_self)
next
  case (Cons c cs)
  from Cons.prems have "take (length pat) (drop 0 ((c # cs) @ pat)) \<noteq> pat"
    by (metis length_greater_0_conv list.distinct(1))
  then have h: "take (length pat) (c # (cs @ pat)) \<noteq> pat" by simp
  have "\<forall>i<length cs. take (length pat) (drop i (cs @ pat)) \<noteq> pat"
  proof (intro allI impI)
    fix i assume "i < length cs"
    then have "Suc i < length (c # cs)" by simp
    with Cons.prems have "take (length pat) (drop (Suc i) ((c # cs) @ pat)) \<noteq> pat" by blast
    then show "take (length pat) (drop i (cs @ pat)) \<noteq> pat" by simp
  qed
  then have ih: "replace_first pat [] (cs @ pat) = cs" by (rule Cons.IH)
  have "replace_first pat [] ((c # cs) @ pat) = c # replace_first pat [] (cs @ pat)"
    using h by (simp only: append_Cons replace_first.simps if_False)
  with ih show ?case by simp
qed

text \<open>The object built by \<open>handleApply\<close>: one key is written, the others are kept.\<close>

lemma newConfig_other_keys: "k \<noteq> apply_key cat \<Longrightarrow> newConfig cat f x cfg k = cfg k"
  by (simp add: newConfig_def)

lemma newConfig_written_key:
  "newConfig cat f x cfg (apply_key cat) = Some (PromptSelection (replace_first ''.txt'' [] f) x)"
  by (simp add: newConfig_def)

lemma apply_key_selection_targets:
  "apply_key ''Translate'' = ''translation_prompt_selection'' \<and>
   apply_key ''Polishing'' = ''polishing_prompt_selection''"
  by (simp add: apply_key_def)

text \<open>An event that changes the configuration is the fulfilment of an apply.\<close>

lemma step_config:
  assumes "step s e = Some s'" "config s' \<noteq> config s"
  shows "\<exists>i r nc. e = Resolve i r \<and> i < length (pending s) \<and>
           snd (pending s ! i) = Await_handleApply nc \<and> r \<noteq> Rejected \<and> config s' = Some nc"
proof (cases e)
  case (Resolve i r)
  with assms have i: "i < length (pending s)" by (simp split: if_splits)
  let ?s = "s\<lparr>pending := take i (pending s) @ drop (Suc i) (pending s)\<rparr>"
  from assms Resolve i have r: "resume (snd (pending s ! i)) r ?s = Some s'" by simp
  show ?thesis
  proof (cases "snd (pending s ! i)")
    case (Await_handleApply nc)
    with r assms(2) have "r \<noteq> Rejected \<and> config s' = Some nc"
      by (cases r) auto
    with Resolve i Await_handleApply show ?thesis by simp
  next
    case (Await_loadCategories ac)
    with r assms(2) show ?thesis
      by (cases r) (auto simp: handler_defs split: if_splits)
  next
    case (Await_loadPrompts caller)
    with r assms(2) show ?thesis
      by (cases r; cases caller) (auto simp: handler_defs split: if_splits)
  next
    case (Await_loadPromptContent f)
    with r assms(2) show ?thesis by (cases r) auto
  next
    case Await_handleSave
    with r assms(2) show ?thesis by (cases r) auto
  next
    case (Await_handleCreate ac f)
    with r assms(2) show ?thesis by (cases r) (auto simp: handler_defs)
  qed
qed (use assms in \<open>auto simp: handler_defs split: if_splits\<close>)

text \<open>Counting the calls in flight.\<close>

lemma in_flight_0: "in_flight P s = 0 \<longleftrightarrow> (\<forall>p\<in>set (pending s). \<not> P (snd p))"
  by (simp add: in_flight_def filter_empty_conv)

lemma in_flight_remove:
  assumes "i < length (pending s)"
  shows "in_flight P (s\<lparr>pending := take i (pending s) @ drop (Suc i) (pending s)\<rparr>) =
         in_flight P s - (if P (snd (pending s ! i)) then 1 else 0)"
proof -
  have "pending s = take i (pending s) @ pending s ! i # drop (Suc i) (pending s)"
    using assms by (rule id_take_nth_drop)
  then have "filter (\<lambda>p. P (snd p)) (pending s) =
      filter (\<lambda>p. P (snd p)) (take i (pending s) @ pending s ! i # drop (Suc i) (pending s))"
    by simp
  then show ?thesis
    by (simp add: in_flight_def)
qed

lemma in_flight_fields [simp]:
  "in_flight P (s\<lparr>categories := a1\<rparr>) = in_flight P s"
  "in_flight P (s\<lparr>activeCategory := a2\<rparr>) = in_flight P s"
  "in_flight P (s\<lparr>prompts := a3\<rparr>) = in_flight P s"
  "in_flight P (s\<lparr>selectedPrompt := a4\<rparr>) = in_flight P s"
  "in_flight P (s\<lparr>content := a5\<rparr>) = in_flight P s"
  "in_flight P (s\<lparr>loading := a6\<rparr>) = in_flight P s"
  "in_flight P (s\<lparr>saving := a7\<rparr>) = in_flight P s"
  "in_flight P (s\<lparr>filter_text := a8\<rparr>) = in_flight P s"
  "in_flight P (s\<lparr>isCreating := a9\<rparr>) = in_flight P s"
  "in_flight P (s\<lparr>newName := a10\<rparr>) = in_flight P s"
  "in_flight P (s\<lparr>config := a11\<rparr>) = in_flight P s"
  "in_flight P (s\<lparr>alerts := a12\<rparr>) = in_flight P s"
  "in_flight P (s\<lparr>console := a13\<rparr>) = in_flight P s"
  by (simp_all add: in_flight_def)

lemma in_flight_issue [simp]:
  "in_flight P (issue rq k s) = in_flight P s + (if P k then 1 else 0)"
  by (simp add: in_flight_def issue_def)

lemma saving_issue [simp]: "saving (issue rq k s) = saving s"
  by (simp add: issue_def)

text \<open>
  The rest of a handler issues at most a \<open>listPrompts\<close> or a \<open>getPromptContent\<close>.
\<close>

lemma in_flight_resume:
  assumes "resume k r s = Some s'" "\<And>c. \<not> P (Await_loadPrompts c)"
    "\<And>f. \<not> P (Await_loadPromptContent f)"
  shows "in_flight P s' = in_flight P s"
  using assms
  by (cases k; cases r)
    (auto simp: setActiveCategory_def effect_activeCategory_def loadPrompts_def
      loadPromptContent_def Let_def split: option.splits if_splits)

lemma resume_saving:
  assumes "resume k r s = Some s'" "\<not> is_save k"
  shows "saving s' = saving s"
  using assms
  by (cases k; cases r)
    (auto simp: setActiveCategory_def effect_activeCategory_def loadPrompts_def
      loadPromptContent_def issue_def Let_def split: option.splits if_splits)

text \<open>
  Without a click on Apply, no apply is added to the calls in flight; a quiet run keeps
  the configuration; and a run without a click on Apply is quiet when it starts with no
  apply in flight.
\<close>

lemma step_applies:
  assumes "step s e = Some s'" "e \<noteq> ClickApply"
  shows "in_flight is_apply s' \<le> in_flight is_apply s"
proof (cases e)
  case (Resolve i r)
  with assms have i: "i < length (pending s)" by (simp split: if_splits)
  let ?s = "s\<lparr>pending := take i (pending s) @ drop (Suc i) (pending s)\<rparr>"
  from assms Resolve i have "resume (snd (pending s ! i)) r ?s = Some s'" by simp
  then have "in_flight is_apply s' = in_flight is_apply ?s"
    by (rule in_flight_resume) simp_all
  with i show ?thesis by (simp add: in_flight_remove)
qed (use assms in \<open>auto simp: setActiveCategory_def effect_activeCategory_def loadPrompts_def
      loadPromptContent_def handleSave_def handleCreate_def Let_def split: if_splits\<close>)

lemma quiet_step:
  assumes "step s e = Some s'" "\<not> apply_event s e"
  shows "config s' = config s"
proof (rule ccontr)
  assume "config s' \<noteq> config s"
  with assms(1) obtain i r nc where "e = Resolve i r" "i < length (pending s)"
    "snd (pending s ! i) = Await_handleApply nc"
    using step_config by blast
  with assms(2) show False by simp
qed

lemma quiet_run:
  assumes "run s es = Some s'" "quiet s es"
  shows "config s' = config s"
  using assms
proof (induction es arbitrary: s)
  case Nil
  then show ?case by simp
next
  case (Cons e es)
  then obtain s1 where s1: "step s e = Some s1" "run s1 es = Some s'"
    by (auto split: option.splits)
  with Cons.prems(2) have q: "\<not> apply_event s e" "quiet s1 es" by simp_all
  from s1(1) q(1) have "config s1 = config s" by (rule quiet_step)
  moreover from s1(2) q(2) have "config s' = config s1" by (rule Cons.IH)
  ultimately show ?case by simp
qed

lemma quiet_when_none_in_flight:
  assumes "run s es = Some s'" "ClickApply \<notin> set es" "in_flight is_apply s = 0"
  shows "quiet s es"
  using assms
proof (induction es arbitrary: s)
  case Nil
  then show ?case by simp
next
  case (Cons e es)
  then obtain s1 where s1: "step s e = Some s1" "run s1 es = Some s'"
    by (auto split: option.splits)
  from Cons.prems have ne: "e \<noteq> ClickApply" by auto
  from Cons.prems(3) have none: "\<forall>p\<in>set (pending s). \<not> is_apply (snd p)"
    by (simp add: in_flight_0)
  have na: "\<not> apply_event s e"
  proof (cases e)
    case (Resolve i r)
    with none show ?thesis by auto
  qed (use ne in simp_all)
  from step_applies [OF s1(1) ne] Cons.prems(3) have "in_flight is_apply s1 = 0" by simp
  with s1(2) Cons.prems(2) have "quiet s1 es" by (intro Cons.IH) auto
  with na s1(1) show ?case by simp
qed

text \<open>
  The Save button: in every page reached from the first render at most one
  \<open>handleSave\<close> is in flight, and \<open>saving\<close> is set while it is.
\<close>

lemma step_save_guarded:
  assumes "step s e = Some s'" "save_guarded s"
  shows "save_guarded s'"
proof (cases e)
  case (Resolve i r)
  with assms have i: "i < length (pending s)" by (simp split: if_splits)
  let ?s = "s\<lparr>pending := take i (pending s) @ drop (Suc i) (pending s)\<rparr>"
  from assms Resolve i have r: "resume (snd (pending s ! i)) r ?s = Some s'" by simp
  then have n: "in_flight is_save s' = in_flight is_save ?s"
    by (rule in_flight_resume) simp_all
  show ?thesis
  proof (cases "is_save (snd (pending s ! i))")
    case True
    with i n assms(2) have "in_flight is_save s' = 0"
      by (auto simp: in_flight_remove save_guarded_def)
    then show ?thesis by (simp add: save_guarded_def)
  next
    case False
    with r have "saving s' = saving ?s" by (intro resume_saving)
    with False i n assms(2) show ?thesis
      by (simp add: in_flight_remove save_guarded_def)
  qed
next
  case ClickSave
  with assms have "\<not> saving s" "s' = handleSave s" "truthy (selectedPrompt s)"
    by (auto split: if_splits)
  with assms(2) show ?thesis
    by (auto simp: save_guarded_def handleSave_def issue_def in_flight_def)
qed (use assms in \<open>auto simp: save_guarded_def setActiveCategory_def effect_activeCategory_def
      loadPrompts_def loadPromptContent_def handleApply_def handleCreate_def Let_def
      split: if_splits\<close>)

lemma run_save_guarded:
  assumes "run s es = Some s'" "save_guarded s"
  shows "save_guarded s'"
  using assms
proof (induction es arbitrary: s)
  case Nil
  then show ?case by simp
next
  case (Cons e es)
  then obtain s1 where s1: "step s e = Some s1" "run s1 es = Some s'"
    by (auto split: option.splits)
  from s1(1) Cons.prems(2) have "save_guarded s1" by (rule step_save_guarded)
  with s1(2) show ?case by (rule Cons.IH)
qed

lemma mount_save_guarded: "save_guarded (mount cfg)"
  by (simp add: save_guarded_def in_flight_def mount_def initial_def handler_defs)

lemma at_most_one_save_in_flight:
  "run (mount cfg) es = Some s \<Longrightarrow> in_flight is_save s \<le> 1"
proof -
  assume "run (mount cfg) es = Some s"
  then have "save_guarded s" using mount_save_guarded by (rule run_save_guarded)
  then show ?thesis by (auto simp: save_guarded_def)
qed

text \<open>No save of the operator's is in flight against System.\<close>

lemma resume_no_System_save:
  assumes "resume k r s = Some s'" "no_System_save s"
  shows "no_System_save s'"
  using assms
  by (cases k; cases r)
    (auto simp: no_System_save_def setActiveCategory_def effect_activeCategory_def loadPrompts_def
      loadPromptContent_def issue_def Let_def split: option.splits if_splits)

lemma step_no_System_save:
  assumes "step s e = Some s'" "no_System_save s"
  shows "no_System_save s'"
proof (cases e)
  case (Resolve i r)
  with assms have i: "i < length (pending s)" by (simp split: if_splits)
  let ?s = "s\<lparr>pending := take i (pending s) @ drop (Suc i) (pending s)\<rparr>"
  from assms Resolve i have "resume (snd (pending s ! i)) r ?s = Some s'" by simp
  moreover from assms(2) have "no_System_save ?s"
    by (auto simp: no_System_save_def dest: in_set_takeD in_set_dropD)
  ultimately show ?thesis by (rule resume_no_System_save)
qed (use assms in \<open>auto simp: no_System_save_def handler_defs split: if_splits\<close>)

lemma run_no_System_save:
  assumes "run s es = Some s'" "no_System_save s"
  shows "no_System_save s'"
  using assms
proof (induction es arbitrary: s)
  case Nil
  then show ?case by simp
next
  case (Cons e es)
  then obtain s1 where s1: "step s e = Some s1" "run s1 es = Some s'"
    by (auto split: option.splits)
  from s1(1) Cons.prems(2) have "no_System_save s1" by (rule step_no_System_save)
  with s1(2) show ?case by (rule Cons.IH)
qed

lemma mount_no_System_save: "no_System_save (mount cfg)"
  by (simp add: no_System_save_def mount_def initial_def handler_defs)

section \<open>The claims\<close>

subsection \<open>C1: switching the category while a list is loading\<close>

text \<open>
  C1, as stated, fails. From the session's page the operator selects Polishing and then
  System before the list of Polishing has arrived. The list of System arrives first, the
  list of Polishing after it: the page then shows System as the active category and holds
  the list of Polishing.
\<close>

theorem stale_list_overwrites:
  "map_option activeCategory
     (run viewing [ClickCategory ''Polishing'', ClickCategory ''System'',
        Resolve 1 (Fulfilled_list [''sys.txt'']), Resolve 0 (Fulfilled_list [''polish.txt''])]) =
     Some ''System'' \<and>
   map_option prompts
     (run viewing [ClickCategory ''Polishing'', ClickCategory ''System'',
        Resolve 1 (Fulfilled_list [''sys.txt'']), Resolve 0 (Fulfilled_list [''polish.txt''])]) =
     Some [''polish.txt'']"
  by (simp add: viewing_def handler_defs)

text \<open>
  C1, amended. \<open>loadPrompts\<close> stores every list that arrives without comparing its
  request with \<open>activeCategory\<close>. After a category \<open>c1\<close> and then another category
  \<open>c2\<close> have been selected, \<open>c2\<close> is active and both requests are in flight; the
  list held afterwards is that of the response that arrives last: the list of \<open>c2\<close>
  when the response for \<open>c1\<close> arrives first, the list of \<open>c1\<close> when it arrives
  after the response for \<open>c2\<close>.
\<close>

theorem last_list_response_wins:
  "(i < length (pending s) \<and> pending s ! i = (ListPrompts c, Await_loadPrompts None) \<longrightarrow>
      step s (Resolve i (Fulfilled_list l)) =
        Some (s\<lparr>pending := take i (pending s) @ drop (Suc i) (pending s), prompts := l,
                loading := False\<rparr>)) \<and>
   (c1 \<in> set (categories s) \<and> c2 \<in> set (categories s) \<and> c1 \<noteq> activeCategory s \<and>
    c2 \<noteq> c1 \<and> c1 \<noteq> [] \<and> c2 \<noteq> [] \<and> n = length (pending s) \<longrightarrow>
      run s [ClickCategory c1, ClickCategory c2] =
        Some (s\<lparr>activeCategory := c2, selectedPrompt := None, content := [], loading := True,
                pending := pending s @ [(ListPrompts c1, Await_loadPrompts None),
                                       (ListPrompts c2, Await_loadPrompts None)]\<rparr>) \<and>
      run s [ClickCategory c1, ClickCategory c2,
             Resolve n (Fulfilled_list l1), Resolve n (Fulfilled_list l2)] =
        Some (s\<lparr>activeCategory := c2, selectedPrompt := None, content := [], loading := False,
                prompts := l2\<rparr>) \<and>
      run s [ClickCategory c1, ClickCategory c2,
             Resolve (Suc n) (Fulfilled_list l2), Resolve n (Fulfilled_list l1)] =
        Some (s\<lparr>activeCategory := c2, selectedPrompt := None, content := [], loading := False,
                prompts := l1\<rparr>))"
  by (simp add: handler_defs nth_append)

theorem last_list_response_wins_witness:
  "run viewing [ClickCategory ''Polishing'', ClickCategory ''System'',
        Resolve 0 (Fulfilled_list [''polish.txt'']), Resolve 0 (Fulfilled_list [''sys.txt''])] =
     Some (viewing\<lparr>activeCategory := ''System'', selectedPrompt := None, content := [],
        prompts := [''sys.txt'']\<rparr>) \<and>
   run viewing [ClickCategory ''Polishing'', ClickCategory ''System'',
        Resolve 1 (Fulfilled_list [''sys.txt'']), Resolve 0 (Fulfilled_list [''polish.txt''])] =
     Some (viewing\<lparr>activeCategory := ''System'', selectedPrompt := None, content := [],
        prompts := [''polish.txt'']\<rparr>) \<and>
   step (viewing\<lparr>activeCategory := ''System'',
           pending := [(ListPrompts ''Polishing'', Await_loadPrompts None)]\<rparr>)
        (Resolve 0 (Fulfilled_list [''polish.txt''])) =
     Some (viewing\<lparr>activeCategory := ''System'', pending := [], prompts := [''polish.txt'']\<rparr>)"
proof -
  have "''Polishing'' \<in> set (categories viewing) \<and> ''System'' \<in> set (categories viewing) \<and>
    ''Polishing'' \<noteq> activeCategory viewing \<and> ''System'' \<noteq> ''Polishing'' \<and> ''Polishing'' \<noteq> [] \<and>
    ''System'' \<noteq> [] \<and> 0 = length (pending viewing)"
    by (simp add: viewing_def)
  note runs = last_list_response_wins [THEN conjunct2, rule_format, OF this,
      of "[''polish.txt'']" "[''sys.txt'']"]
  let ?s = "viewing\<lparr>activeCategory := ''System'',
           pending := [(ListPrompts ''Polishing'', Await_loadPrompts None)]\<rparr>"
  have "0 < length (pending ?s) \<and>
      pending ?s ! 0 = (ListPrompts ''Polishing'', Await_loadPrompts None)"
    by (simp add: viewing_def)
  note one = last_list_response_wins [THEN conjunct1, rule_format, OF this, of "[''polish.txt'']"]
  from runs one show ?thesis by (simp add: viewing_def)
qed

subsection \<open>C2: saving in the protected category\<close>

text \<open>
  C2, as stated, fails: the save operation has no check of the category. The operator
  selects System, whose list holds a.txt, and opens that file. Called on this page,
  \<open>handleSave\<close> sends the save of a.txt in System to the store.
\<close>

theorem handleSave_sends_System_save:
  "map_option pending (map_option handleSave
     (run viewing [ClickCategory ''System'', Resolve 0 (Fulfilled_list [''a.txt'']),
        ClickPrompt ''a.txt'', Resolve 0 (Fulfilled_text ''Hello'')])) =
   Some [(SavePromptContent ''System'' ''a.txt'' ''Hello'', Await_handleSave)]"
  by (simp add: viewing_def handler_defs)

text \<open>
  C2, amended. \<open>handleSave\<close> acts whenever a file is selected, whatever the active
  category, and sends the buffer to the store. The protected category is kept from
  being written outside the save operation. The Save button is there only when a file
  is selected, the active category is not System and no save is running, so in no page
  reached from the first render is a save of the operator's in flight against System.
  The store refuses a write to System with \<open>ReadOnly\<close> and stays as it is. When a
  save is rejected, the handler shows Save failed and resets \<open>saving\<close>, and changes
  nothing else.
\<close>

theorem save_guard_is_in_the_view:
  "handleSave s =
     (if truthy (selectedPrompt s) then
        s\<lparr>saving := True, pending := pending s @
          [(SavePromptContent (activeCategory s) (the (selectedPrompt s)) (content s),
            Await_handleSave)]\<rparr>
      else s) \<and>
   step s ClickSave =
     (if truthy (selectedPrompt s) \<and> activeCategory s \<noteq> ''System'' \<and> \<not> saving s
      then Some (handleSave s) else None) \<and>
   (run (mount cfg) es = Some s' \<longrightarrow> no_System_save s') \<and>
   saveContent st ''System'' f x = (st, Some ReadOnly) \<and>
   (i < length (pending s) \<and> snd (pending s ! i) = Await_handleSave \<longrightarrow>
      step s (Resolve i Rejected) =
        Some (s\<lparr>pending := take i (pending s) @ drop (Suc i) (pending s),
                alerts := alerts s @ [Save_failed], saving := False\<rparr>))"
proof (intro conjI impI)
  show "run (mount cfg) es = Some s' \<Longrightarrow> no_System_save s'"
    using mount_no_System_save by (rule run_no_System_save [rotated])
qed (simp_all add: handleSave_def issue_def isSystem_def saveContent_def)

theorem save_guard_is_in_the_view_witness:
  "step (viewing\<lparr>activeCategory := ''System''\<rparr>) ClickSave = None \<and>
   step viewing ClickSave =
     Some (viewing\<lparr>saving := True,
       pending := [(SavePromptContent ''Translate'' ''a.txt'' ''Hello World'', Await_handleSave)]\<rparr>) \<and>
   no_System_save viewing \<and>
   step (viewing\<lparr>saving := True,
       pending := [(SavePromptContent ''Translate'' ''a.txt'' ''Hello World'', Await_handleSave)]\<rparr>)
     (Resolve 0 Rejected) = Some (viewing\<lparr>alerts := [Save_failed]\<rparr>)"
proof -
  let ?s1 = "viewing\<lparr>saving := True,
       pending := [(SavePromptContent ''Translate'' ''a.txt'' ''Hello World'', Await_handleSave)]\<rparr>"
  note t = save_guard_is_in_the_view [of viewing "Some Map.empty" _ viewing]
  note u = save_guard_is_in_the_view [of "viewing\<lparr>activeCategory := ''System''\<rparr>"]
  note v = save_guard_is_in_the_view [of ?s1 _ _ _ _ _ _ 0]
  have "no_System_save viewing"
    using t [THEN conjunct2, THEN conjunct2, THEN conjunct1] viewing_reached by blast
  moreover have "step (viewing\<lparr>activeCategory := ''System''\<rparr>) ClickSave = None"
    using u [THEN conjunct2, THEN conjunct1] by simp
  moreover have "step viewing ClickSave = Some ?s1"
    using t [THEN conjunct2, THEN conjunct1] t [THEN conjunct1]
    by (simp add: viewing_def truthy_def)
  moreover have "0 < length (pending ?s1) \<and> snd (pending ?s1 ! 0) = Await_handleSave"
    by (simp add: viewing_def)
  then have "step ?s1 (Resolve 0 Rejected) = Some (viewing\<lparr>alerts := [Save_failed]\<rparr>)"
    using v [THEN conjunct2, THEN conjunct2, THEN conjunct2, THEN conjunct2]
    by (simp add: viewing_def)
  ultimately show ?thesis by blast
qed

subsection \<open>C3: the binding record's identifier\<close>

text \<open>
  C3. \<open>handleApply\<close> removes the first occurrence of \<open>.txt\<close> from the file name,
  wherever it stands, and no other extension. The operator creates a template with the
  name a.txt.bak, which the page stores as a.txt.bak.txt, and applies it in Translate:
  the identifier written to the configuration is a.bak.txt, where the file name without
  its extension is a.txt.bak.
\<close>

theorem handleApply_removes_first_txt:
  "map_option pending
     (run viewing
        [ClickNewPrompt, ChangeNewName ''a.txt.bak'', ConfirmCreate,
         Resolve 0 Fulfilled_unit,
         Resolve 0 (Fulfilled_list [''a.txt'', ''a.txt.bak.txt'', ''b.txt'']),
         Resolve 0 (Fulfilled_text []),
         ClickApply]) =
   Some [(SaveConfig [''translation_prompt_selection'' \<mapsto> PromptSelection ''a.bak.txt'' []],
          Await_handleApply [''translation_prompt_selection'' \<mapsto> PromptSelection ''a.bak.txt'' []])]"
  by (simp add: viewing_def handler_defs trim_def is_ws_def endsWith_def newConfig_def apply_key_def)

subsection \<open>C4: the binding record is a snapshot\<close>

text \<open>
  C4. The operator applies the selected file and the save of the configuration
  succeeds: the configuration is then the one the page held at the click with one key
  written, the identifier and the buffer as they were at the click. Through every quiet
  run that follows (edits of the buffer, saves and their results, any event that is
  neither a click on Apply nor the resolution of an apply) the configuration stays that
  one.
\<close>

theorem binding_record_is_snapshot:
  "config s = Some cfg \<and> selectedPrompt s = Some f \<and> r \<noteq> Rejected \<and>
   run s [ClickApply, Resolve (length (pending s)) r] = Some s1 \<and>
   run s1 es = Some s' \<and> quiet s1 es \<longrightarrow>
     config s1 =
       Some (cfg((if activeCategory s = ''Polishing'' then ''polishing_prompt_selection''
                  else ''translation_prompt_selection'') \<mapsto>
               PromptSelection (replace_first ''.txt'' [] f) (content s))) \<and>
     config s' = config s1"
proof
  assume a: "config s = Some cfg \<and> selectedPrompt s = Some f \<and> r \<noteq> Rejected \<and>
   run s [ClickApply, Resolve (length (pending s)) r] = Some s1 \<and>
   run s1 es = Some s' \<and> quiet s1 es"
  let ?nc = "newConfig (activeCategory s) f (content s) cfg"
  let ?s2 = "s\<lparr>config := Some ?nc, alerts := alerts s @ [Msg_prompt_updated]\<rparr>"
  from a have run: "run s [ClickApply, Resolve (length (pending s)) r] = Some s1"
    and cfg: "config s = Some cfg" and sel: "selectedPrompt s = Some f"
    and r: "r \<noteq> Rejected" by blast+
  from run have "step s ClickApply \<noteq> None"
    by (cases "step s ClickApply") (simp_all del: step.simps)
  then have en: "truthy (selectedPrompt s)" and st1: "step s ClickApply = Some (handleApply s)"
    by (auto split: if_splits)
  from en cfg sel have ha: "handleApply s =
      s\<lparr>pending := pending s @ [(SaveConfig ?nc, Await_handleApply ?nc)]\<rparr>"
    by (simp add: handleApply_def issue_def Let_def)
  from r have st2: "step (handleApply s) (Resolve (length (pending s)) r) = Some ?s2"
    by (cases r) (simp_all add: ha)
  from run have "s1 = ?s2"
    by (simp add: st1 st2 del: step.simps)
  then have c1: "config s1 =
       Some (cfg((if activeCategory s = ''Polishing'' then ''polishing_prompt_selection''
                  else ''translation_prompt_selection'') \<mapsto>
               PromptSelection (replace_first ''.txt'' [] f) (content s)))"
    by (simp add: newConfig_def apply_key_def)
  from a have "config s' = config s1" using quiet_run by blast
  with c1 show "config s1 =
       Some (cfg((if activeCategory s = ''Polishing'' then ''polishing_prompt_selection''
                  else ''translation_prompt_selection'') \<mapsto>
               PromptSelection (replace_first ''.txt'' [] f) (content s))) \<and>
     config s' = config s1" by simp
qed

theorem binding_record_is_snapshot_witness:
  "map_option config
     (run viewing [ClickApply, Resolve 0 Fulfilled_unit, EditContent ''Hello again'', ClickSave,
        Resolve 0 Fulfilled_unit, EditContent ''Bye'', ClickSave, Resolve 0 Rejected]) =
   Some (Some [''translation_prompt_selection'' \<mapsto> PromptSelection ''a'' ''Hello World''])"
proof -
  let ?es = "[EditContent ''Hello again'', ClickSave,
        Resolve 0 Fulfilled_unit, EditContent ''Bye'', ClickSave, Resolve 0 Rejected]"
  let ?c = "Some [''translation_prompt_selection'' \<mapsto> PromptSelection ''a'' ''Hello World'']"
  let ?s1 = "viewing\<lparr>config := ?c, alerts := [Msg_prompt_updated]\<rparr>"
  let ?s' = "viewing\<lparr>content := ''Bye'', config := ?c,
       alerts := [Msg_prompt_updated, Msg_saved, Save_failed]\<rparr>"
  have r1: "run viewing [ClickApply, Resolve (length (pending viewing)) Fulfilled_unit] = Some ?s1"
    by (simp add: viewing_def handler_defs newConfig_def apply_key_def)
  have r2: "run ?s1 ?es = Some ?s'"
    by (simp add: viewing_def handler_defs)
  have q: "quiet ?s1 ?es"
    by (simp add: viewing_def handler_defs)
  have "config viewing = Some Map.empty" "selectedPrompt viewing = Some ''a.txt''"
    by (simp_all add: viewing_def)
  with r1 r2 q have "config ?s' = config ?s1"
    using binding_record_is_snapshot [of viewing Map.empty "''a.txt''" Fulfilled_unit ?s1 ?es ?s']
    by blast
  moreover have "run viewing (ClickApply # Resolve 0 Fulfilled_unit # ?es) = Some ?s'"
    by (simp add: viewing_def handler_defs newConfig_def apply_key_def)
  ultimately show ?thesis by simp
qed

subsection \<open>C5: creating a template\<close>

text \<open>
  C5. \<open>handleCreate\<close> returns at once, with no call issued, exactly when the name
  is empty or made of white space only. Otherwise the file name is the name, with
  \<open>.txt\<close> appended unless the name ends with it, so a name and the name with
  \<open>.txt\<close> give the same call; the call is a save of the empty text under that file
  name in the active category. When the save succeeds the list of the category is
  requested; when the list has arrived the name box is closed and the content of the new
  file is requested; when the content has arrived the new file is the selected one.
\<close>

theorem handleCreate_protocol:
  "(trim (newName s) = [] \<longleftrightarrow> (\<forall>c\<in>set (newName s). is_ws c)) \<and>
   (trim (newName s) = [] \<longrightarrow> handleCreate s = s) \<and>
   (trim (newName s) \<noteq> [] \<and> k = length (pending s) \<and> ac = activeCategory s \<and>
    filename = (if endsWith (newName s) ''.txt'' then newName s else newName s @ ''.txt'') \<longrightarrow>
      endsWith filename ''.txt'' \<and>
      handleCreate s =
        s\<lparr>pending := pending s @
            [(SavePromptContent ac filename [], Await_handleCreate ac filename)]\<rparr> \<and>
      pending (handleCreate (s\<lparr>newName := filename\<rparr>)) = pending (handleCreate s) \<and>
      run (handleCreate s) [Resolve k Fulfilled_unit] =
        Some (s\<lparr>loading := True, pending := pending s @
            [(ListPrompts ac, Await_loadPrompts (Some (ac, filename)))]\<rparr>) \<and>
      run (handleCreate s) [Resolve k Fulfilled_unit, Resolve k (Fulfilled_list l)] =
        Some (s\<lparr>prompts := l, isCreating := False, newName := [], loading := True,
            pending := pending s @
              [(GetPromptContent ac filename, Await_loadPromptContent filename)]\<rparr>) \<and>
      run (handleCreate s)
          [Resolve k Fulfilled_unit, Resolve k (Fulfilled_list l), Resolve k (Fulfilled_text d)] =
        Some (s\<lparr>prompts := l, isCreating := False, newName := [], loading := False,
            content := d, selectedPrompt := Some filename\<rparr>))"
proof (intro conjI impI)
  show "trim (newName s) = [] \<longleftrightarrow> (\<forall>c\<in>set (newName s). is_ws c)"
    by (rule trim_empty_iff)
next
  assume "trim (newName s) = []"
  then show "handleCreate s = s" by (simp add: handleCreate_def)
next
  assume a: "trim (newName s) \<noteq> [] \<and> k = length (pending s) \<and> ac = activeCategory s \<and>
    filename = (if endsWith (newName s) ''.txt'' then newName s else newName s @ ''.txt'')"
  then show "endsWith filename ''.txt''" by simp
  from a have hc: "handleCreate s =
        s\<lparr>pending := pending s @
            [(SavePromptContent ac filename [], Await_handleCreate ac filename)]\<rparr>"
    by (simp add: handleCreate_def issue_def Let_def)
  then show "handleCreate s =
        s\<lparr>pending := pending s @
            [(SavePromptContent ac filename [], Await_handleCreate ac filename)]\<rparr>" .
  from a have "trim filename \<noteq> []" by (auto simp: trim_txt)
  moreover from a have "endsWith filename ''.txt''" by simp
  ultimately have "pending (handleCreate (s\<lparr>newName := filename\<rparr>)) =
      pending s @ [(SavePromptContent ac filename [], Await_handleCreate ac filename)]"
    using a by (simp add: handleCreate_def issue_def Let_def)
  then show "pending (handleCreate (s\<lparr>newName := filename\<rparr>)) = pending (handleCreate s)"
    by (simp add: hc)
  from a show "run (handleCreate s) [Resolve k Fulfilled_unit] =
        Some (s\<lparr>loading := True, pending := pending s @
            [(ListPrompts ac, Await_loadPrompts (Some (ac, filename)))]\<rparr>)"
    by (simp add: hc loadPrompts_def issue_def)
  from a show "run (handleCreate s) [Resolve k Fulfilled_unit, Resolve k (Fulfilled_list l)] =
        Some (s\<lparr>prompts := l, isCreating := False, newName := [], loading := True,
            pending := pending s @
              [(GetPromptContent ac filename, Await_loadPromptContent filename)]\<rparr>)"
    by (simp add: hc loadPrompts_def loadPromptContent_def issue_def)
  from a show "run (handleCreate s)
          [Resolve k Fulfilled_unit, Resolve k (Fulfilled_list l), Resolve k (Fulfilled_text d)] =
        Some (s\<lparr>prompts := l, isCreating := False, newName := [], loading := False,
            content := d, selectedPrompt := Some filename\<rparr>)"
    by (simp add: hc loadPrompts_def loadPromptContent_def issue_def)
qed

theorem handleCreate_protocol_witness:
  "handleCreate (viewing\<lparr>newName := []\<rparr>) = viewing\<lparr>newName := []\<rparr> \<and>
   handleCreate (viewing\<lparr>newName := ''   ''\<rparr>) = viewing\<lparr>newName := ''   ''\<rparr> \<and>
   pending (handleCreate (viewing\<lparr>newName := ''foo''\<rparr>)) =
     [(SavePromptContent ''Translate'' ''foo.txt'' [], Await_handleCreate ''Translate'' ''foo.txt'')] \<and>
   pending (handleCreate (viewing\<lparr>newName := ''foo.txt''\<rparr>)) =
     [(SavePromptContent ''Translate'' ''foo.txt'' [], Await_handleCreate ''Translate'' ''foo.txt'')] \<and>
   run (handleCreate (viewing\<lparr>newName := ''foo''\<rparr>))
     [Resolve 0 Fulfilled_unit, Resolve 0 (Fulfilled_list [''a.txt'', ''b.txt'', ''foo.txt'']),
      Resolve 0 (Fulfilled_text [])] =
     Some (viewing\<lparr>prompts := [''a.txt'', ''b.txt'', ''foo.txt''], content := [],
       selectedPrompt := Some ''foo.txt''\<rparr>)"
proof -
  note reject = handleCreate_protocol [THEN conjunct2, THEN conjunct1, rule_format]
  note accept = handleCreate_protocol [THEN conjunct2, THEN conjunct2, rule_format]
  have "trim (newName (viewing\<lparr>newName := []\<rparr>)) = []"
    by (simp add: trim_def)
  then have r1: "handleCreate (viewing\<lparr>newName := []\<rparr>) = viewing\<lparr>newName := []\<rparr>"
    by (rule reject)
  have "trim (newName (viewing\<lparr>newName := ''   ''\<rparr>)) = []"
    by (simp add: trim_def is_ws_def)
  then have r2: "handleCreate (viewing\<lparr>newName := ''   ''\<rparr>) = viewing\<lparr>newName := ''   ''\<rparr>"
    by (rule reject)
  have "trim (newName (viewing\<lparr>newName := ''foo''\<rparr>)) \<noteq> [] \<and>
      0 = length (pending (viewing\<lparr>newName := ''foo''\<rparr>)) \<and>
      ''Translate'' = activeCategory (viewing\<lparr>newName := ''foo''\<rparr>) \<and>
      ''foo.txt'' = (if endsWith (newName (viewing\<lparr>newName := ''foo''\<rparr>)) ''.txt''
         then newName (viewing\<lparr>newName := ''foo''\<rparr>)
         else newName (viewing\<lparr>newName := ''foo''\<rparr>) @ ''.txt'')"
    by (simp add: trim_def is_ws_def endsWith_def viewing_def)
  note a3 = accept [OF this, of "[''a.txt'', ''b.txt'', ''foo.txt'']" "[]"]
  have "trim (newName (viewing\<lparr>newName := ''foo.txt''\<rparr>)) \<noteq> [] \<and>
      0 = length (pending (viewing\<lparr>newName := ''foo.txt''\<rparr>)) \<and>
      ''Translate'' = activeCategory (viewing\<lparr>newName := ''foo.txt''\<rparr>) \<and>
      ''foo.txt'' = (if endsWith (newName (viewing\<lparr>newName := ''foo.txt''\<rparr>)) ''.txt''
         then newName (viewing\<lparr>newName := ''foo.txt''\<rparr>)
         else newName (viewing\<lparr>newName := ''foo.txt''\<rparr>) @ ''.txt'')"
    by (simp add: trim_def is_ws_def endsWith_def viewing_def)
  note a4 = accept [OF this]
  have p3: "pending (handleCreate (viewing\<lparr>newName := ''foo''\<rparr>)) =
     [(SavePromptContent ''Translate'' ''foo.txt'' [], Await_handleCreate ''Translate'' ''foo.txt'')]"
    by (simp add: a3 [THEN conjunct2, THEN conjunct1]) (simp add: viewing_def)
  have p4: "pending (handleCreate (viewing\<lparr>newName := ''foo.txt''\<rparr>)) =
     [(SavePromptContent ''Translate'' ''foo.txt'' [], Await_handleCreate ''Translate'' ''foo.txt'')]"
    by (simp add: a4 [THEN conjunct2, THEN conjunct1]) (simp add: viewing_def)
  have p5: "run (handleCreate (viewing\<lparr>newName := ''foo''\<rparr>))
     [Resolve 0 Fulfilled_unit, Resolve 0 (Fulfilled_list [''a.txt'', ''b.txt'', ''foo.txt'']),
      Resolve 0 (Fulfilled_text [])] =
     Some (viewing\<lparr>prompts := [''a.txt'', ''b.txt'', ''foo.txt''], content := [],
       selectedPrompt := Some ''foo.txt''\<rparr>)"
    unfolding a3 [THEN conjunct2, THEN conjunct2, THEN conjunct2, THEN conjunct2, THEN conjunct2]
    by (simp add: viewing_def)
  from r1 r2 p3 p4 p5 show ?thesis by blast
qed

subsection \<open>C6: the configuration is installed after the save has succeeded\<close>

text \<open>
  C6. \<open>handleApply\<close> leaves the configuration of the global context as it is up
  to its await; when the pending \<open>saveConfig\<close> of an apply is rejected the
  configuration stays as it was and Apply failed is shown; and the only event that
  changes the configuration at all is the fulfilment of an apply's \<open>saveConfig\<close>,
  which installs that apply's merged object.
\<close>

theorem apply_installs_config_after_persist:
  "config (handleApply s) = config s \<and>
   (\<forall>i nc. i < length (pending s) \<and> snd (pending s ! i) = Await_handleApply nc \<longrightarrow>
      (\<exists>s'. step s (Resolve i Rejected) = Some s' \<and> config s' = config s \<and>
            alerts s' = alerts s @ [Apply_failed])) \<and>
   (\<forall>e s'. step s e = Some s' \<and> config s' \<noteq> config s \<longrightarrow>
      (\<exists>i r nc. e = Resolve i r \<and> i < length (pending s) \<and>
         snd (pending s ! i) = Await_handleApply nc \<and> r \<noteq> Rejected \<and> config s' = Some nc))"
proof (intro conjI allI impI)
  show "config (handleApply s) = config s"
    by (simp add: handleApply_def issue_def Let_def)
next
  fix i nc
  assume "i < length (pending s) \<and> snd (pending s ! i) = Await_handleApply nc"
  then show "\<exists>s'. step s (Resolve i Rejected) = Some s' \<and> config s' = config s \<and>
            alerts s' = alerts s @ [Apply_failed]"
    by simp
next
  fix e s'
  assume "step s e = Some s' \<and> config s' \<noteq> config s"
  then show "\<exists>i r nc. e = Resolve i r \<and> i < length (pending s) \<and>
         snd (pending s ! i) = Await_handleApply nc \<and> r \<noteq> Rejected \<and> config s' = Some nc"
    using step_config by blast
qed

theorem apply_installs_config_after_persist_witness:
  "config (the (step (handleApply viewing) (Resolve 0 Rejected))) = Some Map.empty \<and>
   alerts (the (step (handleApply viewing) (Resolve 0 Rejected))) = [Apply_failed] \<and>
   config (the (step (handleApply viewing) (Resolve 0 Fulfilled_unit))) =
     Some [''translation_prompt_selection'' \<mapsto> PromptSelection ''a'' ''Hello World'']"
proof -
  let ?nc = "[''translation_prompt_selection'' \<mapsto> PromptSelection ''a'' ''Hello World'']"
  let ?s = "viewing\<lparr>pending := [(SaveConfig ?nc, Await_handleApply ?nc)]\<rparr>"
  have h: "handleApply viewing = ?s"
    by (simp add: viewing_def handler_defs newConfig_def apply_key_def)
  have c: "config ?s = Some Map.empty" and a: "alerts ?s = []"
    by (simp_all add: viewing_def)
  note t0 = apply_installs_config_after_persist [of ?s]
  have "0 < length (pending ?s) \<and> snd (pending ?s ! 0) = Await_handleApply ?nc"
    by simp
  from t0 [THEN conjunct2, THEN conjunct1, rule_format, OF this]
  obtain s' where s': "step ?s (Resolve 0 Rejected) = Some s'"
    "config s' = config ?s" "alerts s' = alerts ?s @ [Apply_failed]"
    by blast
  have ok: "step ?s (Resolve 0 Fulfilled_unit) =
      Some (viewing\<lparr>config := Some ?nc, alerts := [Msg_prompt_updated]\<rparr>)"
    by (simp add: viewing_def)
  have ne: "config (viewing\<lparr>config := Some ?nc, alerts := [Msg_prompt_updated]\<rparr>) \<noteq> config ?s"
    by (simp add: viewing_def)
  note conjI [OF ok ne]
  from t0 [THEN conjunct2, THEN conjunct2, rule_format, OF this]
  obtain i r nc where e: "Resolve 0 Fulfilled_unit = Resolve i r"
    and k: "snd (pending ?s ! i) = Await_handleApply nc"
    and n: "config (viewing\<lparr>config := Some ?nc, alerts := [Msg_prompt_updated]\<rparr>) = Some nc"
    by blast
  from e have "i = 0" by simp
  with k have "nc = ?nc" by simp
  with n have ok': "config (viewing\<lparr>config := Some ?nc, alerts := [Msg_prompt_updated]\<rparr>) = Some ?nc"
    by (simp only:)
  have r1: "config (the (step (handleApply viewing) (Resolve 0 Rejected))) = Some Map.empty"
    unfolding h s'(1) option.sel s'(2) by (rule c)
  have r2: "alerts (the (step (handleApply viewing) (Resolve 0 Rejected))) = [Apply_failed]"
    unfolding h s'(1) option.sel s'(3) a by simp
  have r3: "config (the (step (handleApply viewing) (Resolve 0 Fulfilled_unit))) = Some ?nc"
    unfolding h ok option.sel by (rule ok')
  from r1 r2 r3 show ?thesis by (intro conjI)
qed

subsection \<open>C7: a failed save keeps the buffer\<close>

text \<open>
  C7. \<open>handleSave\<close> does not touch \<open>content\<close> up to its await; when the
  pending \<open>savePromptContent\<close> of a save is rejected, \<open>content\<close> and
  \<open>selectedPrompt\<close> are as before and the alert Save failed is shown; a save that
  is rejected at once leaves the page as it was but for that alert.
\<close>

theorem failed_save_keeps_buffer:
  "content (handleSave s) = content s \<and>
   (\<forall>i. i < length (pending s) \<and> snd (pending s ! i) = Await_handleSave \<longrightarrow>
      (\<exists>s'. step s (Resolve i Rejected) = Some s' \<and> content s' = content s \<and>
            selectedPrompt s' = selectedPrompt s \<and> alerts s' = alerts s @ [Save_failed])) \<and>
   (truthy (selectedPrompt s) \<longrightarrow>
      step (handleSave s) (Resolve (length (pending s)) Rejected) =
        Some (s\<lparr>saving := False, alerts := alerts s @ [Save_failed]\<rparr>))"
  by (simp add: handleSave_def issue_def)

theorem failed_save_keeps_buffer_witness:
  "step (handleSave viewing) (Resolve 0 Rejected) =
     Some (viewing\<lparr>alerts := [Save_failed]\<rparr>) \<and>
   content (viewing\<lparr>alerts := [Save_failed]\<rparr>) = ''Hello World'' \<and>
   map_option content
     (step (viewing\<lparr>content := ''Bye'', saving := True,
              pending := [(SavePromptContent ''Translate'' ''a.txt'' ''Hello World'',
                           Await_handleSave)]\<rparr>)
        (Resolve 0 Rejected)) = Some ''Bye''"
proof -
  let ?s = "viewing\<lparr>content := ''Bye'', saving := True,
              pending := [(SavePromptContent ''Translate'' ''a.txt'' ''Hello World'',
                           Await_handleSave)]\<rparr>"
  have "0 < length (pending ?s) \<and> snd (pending ?s ! 0) = Await_handleSave"
    by (simp add: viewing_def)
  from failed_save_keeps_buffer [of ?s, THEN conjunct2, THEN conjunct1, rule_format, OF this]
  obtain s' where "step ?s (Resolve 0 Rejected) = Some s'" "content s' = content ?s"
    by blast
  then have "map_option content (step ?s (Resolve 0 Rejected)) = Some ''Bye''"
    by (simp add: viewing_def)
  moreover have "step (handleSave viewing) (Resolve 0 Rejected) =
     Some (viewing\<lparr>alerts := [Save_failed]\<rparr>) \<and>
     content (viewing\<lparr>alerts := [Save_failed]\<rparr>) = ''Hello World''"
    using failed_save_keeps_buffer [of viewing]
    by (simp add: viewing_def truthy_def)
  ultimately show ?thesis by blast
qed

subsection \<open>C8: calls in flight at the same time\<close>

text \<open>
  C8. The Apply button is never disabled and \<open>handleApply\<close> sets no flag: two clicks
  on Apply, one after the other, leave two saves of the configuration for the same
  template in flight at the same time. (For Save the guard holds: see
  \<open>at_most_one_save_in_flight\<close>.)
\<close>

theorem two_applies_in_flight:
  "map_option pending (run viewing [ClickApply, ClickApply]) =
   Some [(SaveConfig [''translation_prompt_selection'' \<mapsto> PromptSelection ''a'' ''Hello World''],
          Await_handleApply [''translation_prompt_selection'' \<mapsto> PromptSelection ''a'' ''Hello World'']),
         (SaveConfig [''translation_prompt_selection'' \<mapsto> PromptSelection ''a'' ''Hello World''],
          Await_handleApply [''translation_prompt_selection'' \<mapsto> PromptSelection ''a'' ''Hello World''])]"
  by (simp add: viewing_def handler_defs newConfig_def apply_key_def)

subsection \<open>C9: the key of the binding record\<close>

text \<open>
  C9. With a file selected and a configuration present, \<open>handleApply\<close> sends the
  configuration with one key written: the polishing selection when the active category
  is Polishing, the translation selection for every other category, System and unknown
  categories included. It rejects no category.
\<close>

theorem handleApply_keys_on_Polishing_only:
  "truthy (selectedPrompt s) \<and> config s = Some cfg \<longrightarrow>
     handleApply s =
       (let nc = cfg((if activeCategory s = ''Polishing'' then ''polishing_prompt_selection''
                      else ''translation_prompt_selection'') \<mapsto>
                   PromptSelection (replace_first ''.txt'' [] (the (selectedPrompt s))) (content s))
        in s\<lparr>pending := pending s @ [(SaveConfig nc, Await_handleApply nc)]\<rparr>)"
  by (simp add: handleApply_def newConfig_def apply_key_def issue_def Let_def)

theorem handleApply_keys_on_Polishing_only_witness:
  "pending (handleApply (viewing\<lparr>activeCategory := ''System''\<rparr>)) =
     [(SaveConfig [''translation_prompt_selection'' \<mapsto> PromptSelection ''a'' ''Hello World''],
       Await_handleApply [''translation_prompt_selection'' \<mapsto> PromptSelection ''a'' ''Hello World''])] \<and>
   pending (handleApply (viewing\<lparr>activeCategory := ''Glossary''\<rparr>)) =
     [(SaveConfig [''translation_prompt_selection'' \<mapsto> PromptSelection ''a'' ''Hello World''],
       Await_handleApply [''translation_prompt_selection'' \<mapsto> PromptSelection ''a'' ''Hello World''])] \<and>
   pending (handleApply (viewing\<lparr>activeCategory := ''Polishing''\<rparr>)) =
     [(SaveConfig [''polishing_prompt_selection'' \<mapsto> PromptSelection ''a'' ''Hello World''],
       Await_handleApply [''polishing_prompt_selection'' \<mapsto> PromptSelection ''a'' ''Hello World''])]"
  using handleApply_keys_on_Polishing_only [of "viewing\<lparr>activeCategory := ''System''\<rparr>" Map.empty]
    handleApply_keys_on_Polishing_only [of "viewing\<lparr>activeCategory := ''Glossary''\<rparr>" Map.empty]
    handleApply_keys_on_Polishing_only [of "viewing\<lparr>activeCategory := ''Polishing''\<rparr>" Map.empty]
  by (simp add: viewing_def truthy_def Let_def)

subsection \<open>C10: the first category\<close>

text \<open>
  C10, as stated, fails. The page tells the state without a category by the empty
  string (\<open>if (activeCategory)\<close>, \<open>!activeCategory\<close>). The list of categories
  arrives as the empty name followed by X, without Translate: the list is stored, the
  first name is selected, and the page is still without a category, with no list of
  files requested.
\<close>

theorem empty_first_category_selects_nothing:
  "map_option categories
     (step (mount None) (Resolve 0 (Fulfilled_list [[], ''X'']))) = Some [[], ''X''] \<and>
   map_option activeCategory
     (step (mount None) (Resolve 0 (Fulfilled_list [[], ''X'']))) = Some [] \<and>
   map_option pending
     (step (mount None) (Resolve 0 (Fulfilled_list [[], ''X'']))) = Some []"
  by (simp add: mount_def initial_def handler_defs)

text \<open>
  C10, amended. The first render leaves one call in flight, the list of categories, and
  no category active. When that call is fulfilled with a list that is not empty while no
  category is active, the list is stored and the active category becomes Translate if
  the list has it, and the first category of the list otherwise. The page is then out of
  the state without a category exactly when the name selected is not the empty string:
  it stays without a category when the list has no Translate and its first name is
  empty.
\<close>

theorem loadCategories_selects_category:
  "pending (mount cfg) = [(ListPromptCategories, Await_loadCategories [])] \<and>
   activeCategory (mount cfg) = [] \<and>
   (i < length (pending s) \<and> snd (pending s ! i) = Await_loadCategories [] \<and>
    activeCategory s = [] \<longrightarrow>
      (\<exists>s'. step s (Resolve i (Fulfilled_list (c # cs))) = Some s' \<and>
         categories s' = c # cs \<and>
         activeCategory s' = (if ''Translate'' \<in> set (c # cs) then ''Translate'' else c) \<and>
         (activeCategory s' = [] \<longleftrightarrow> ''Translate'' \<notin> set (c # cs) \<and> c = [])))"
  by (simp add: mount_def initial_def handler_defs)

theorem loadCategories_selects_category_witness:
  "map_option activeCategory
     (step (mount None) (Resolve 0 (Fulfilled_list [''System'', ''Translate'', ''Polishing''])))
     = Some ''Translate'' \<and>
   map_option activeCategory
     (step (mount None) (Resolve 0 (Fulfilled_list [''Glossary'', ''System''])))
     = Some ''Glossary''"
  using loadCategories_selects_category [of None 0 "mount None" "''System''" "[''Translate'', ''Polishing'']"]
    loadCategories_selects_category [of None 0 "mount None" "''Glossary''" "[''System'']"]
  by (simp add: mount_def initial_def handler_defs)

end
